theory Spec2Isabelle
  imports Main "HOL-Library.Word" "HOL-Library.Multiset"
begin

unbundle bit_operations_syntax

section \<open>The hash pad: \<open>hashlib.sha256\<close> of the formatted key string\<close>

text \<open>
  \<open>hash_value\<close> formats the two keys and the gate id as \<open>f"{k1}_{k2}_{gate_id}"\<close>,
  hashes the encoded string with SHA-256 and reads the digest as a big-endian integer.
  SHA-256 is written out after FIPS 180-4 on 32-bit words.
\<close>

type_synonym u32 = "32 word"

definition K256 :: "u32 list" where
  "K256 = [
    1116352408, 1899447441, 3049323471, 3921009573, 961987163, 1508970993,
    2453635748, 2870763221, 3624381080, 310598401, 607225278, 1426881987,
    1925078388, 2162078206, 2614888103, 3248222580, 3835390401, 4022224774,
    264347078, 604807628, 770255983, 1249150122, 1555081692, 1996064986,
    2554220882, 2821834349, 2952996808, 3210313671, 3336571891, 3584528711,
    113926993, 338241895, 666307205, 773529912, 1294757372, 1396182291,
    1695183700, 1986661051, 2177026350, 2456956037, 2730485921, 2820302411,
    3259730800, 3345764771, 3516065817, 3600352804, 4094571909, 275423344,
    430227734, 506948616, 659060556, 883997877, 958139571, 1322822218,
    1537002063, 1747873779, 1955562222, 2024104815, 2227730452, 2361852424,
    2428436474, 2756734187, 3204031479, 3329325298]"

definition H256 :: "u32 list" where
  "H256 = [1779033703, 3144134277, 1013904242, 2773480762,
           1359893119, 2600822924, 528734635, 1541459225]"

definition rotr :: "nat \<Rightarrow> u32 \<Rightarrow> u32" where
  "rotr n x = (drop_bit n x) OR (push_bit (32 - n) x)"

definition bsig0 :: "u32 \<Rightarrow> u32" where
  "bsig0 x = rotr 2 x XOR rotr 13 x XOR rotr 22 x"

definition bsig1 :: "u32 \<Rightarrow> u32" where
  "bsig1 x = rotr 6 x XOR rotr 11 x XOR rotr 25 x"

definition ssig0 :: "u32 \<Rightarrow> u32" where
  "ssig0 x = rotr 7 x XOR rotr 18 x XOR drop_bit 3 x"

definition ssig1 :: "u32 \<Rightarrow> u32" where
  "ssig1 x = rotr 17 x XOR rotr 19 x XOR drop_bit 10 x"

definition ch :: "u32 \<Rightarrow> u32 \<Rightarrow> u32 \<Rightarrow> u32" where
  "ch x y z = (x AND y) XOR (NOT x AND z)"

definition maj :: "u32 \<Rightarrow> u32 \<Rightarrow> u32 \<Rightarrow> u32" where
  "maj x y z = (x AND y) XOR (x AND z) XOR (y AND z)"

text \<open>The message schedule, newest word first: \<open>sched n w\<close> adds \<open>n\<close> words.\<close>

fun sched :: "nat \<Rightarrow> u32 list \<Rightarrow> u32 list" where
  "sched 0 w = w"
| "sched (Suc n) w = sched n ((ssig1 (w ! 1) + w ! 6 + ssig0 (w ! 14) + w ! 15) # w)"

fun be32 :: "nat list \<Rightarrow> u32 list" where
  "be32 (a # b # c # d # r) = of_nat (((a * 256 + b) * 256 + c) * 256 + d) # be32 r"
| "be32 _ = []"

fun rounds :: "u32 list \<Rightarrow> u32 list \<Rightarrow> u32 list \<Rightarrow> u32 list" where
  "rounds (k # ks) (w # ws) [a, b, c, d, e, f, g, h] =
     (let t1 = h + bsig1 e + ch e f g + k + w;
          t2 = bsig0 a + maj a b c
      in rounds ks ws [t1 + t2, a, b, c, d + t1, e, f, g])"
| "rounds _ _ st = st"

definition compress :: "u32 list \<Rightarrow> nat list \<Rightarrow> u32 list" where
  "compress st block = map2 (+) st (rounds K256 (rev (sched 48 (rev (be32 block)))) st)"

fun blocks :: "nat list \<Rightarrow> nat list list" where
  "blocks bs = (if length bs < 64 then [] else take 64 bs # blocks (drop 64 bs))"

declare blocks.simps [simp del]

definition be_bytes :: "nat \<Rightarrow> nat \<Rightarrow> nat list" where
  "be_bytes n x = map (\<lambda>i. (x div 256 ^ (n - 1 - i)) mod 256) [0..<n]"

definition sha_pad :: "nat list \<Rightarrow> nat list" where
  "sha_pad m = m @ [128] @ replicate ((119 - length m mod 64) mod 64) 0
                 @ be_bytes 8 (8 * length m)"

definition sha256 :: "nat list \<Rightarrow> u32 list" where
  "sha256 m = foldl compress H256 (blocks (sha_pad m))"

text \<open>\<open>int.from_bytes(h, 'big')\<close> on the digest, read word by word.\<close>

definition from_bytes_big :: "u32 list \<Rightarrow> int" where
  "from_bytes_big ws = foldl (\<lambda>acc w. acc * 2 ^ 32 + uint w) 0 ws"

text \<open>Python's \<open>str\<close> of an integer: decimal digits, a minus sign when negative.\<close>

function str_nat :: "nat \<Rightarrow> string" where
  "str_nat n = (if n < 10 then [char_of (48 + n)]
                else str_nat (n div 10) @ [char_of (48 + n mod 10)])"
  by pat_completeness auto
termination
  by (relation "measure (\<lambda>n. n)") auto

declare str_nat.simps [simp del]

definition str_int :: "int \<Rightarrow> string" where
  "str_int k = (if k < 0 then CHR ''-'' # str_nat (nat (- k)) else str_nat (nat k))"

definition hash_value :: "int \<Rightarrow> int \<Rightarrow> nat \<Rightarrow> int" where
  "hash_value k1 k2 gate_id =
     (let s = str_int k1 @ ''_'' @ str_int k2 @ ''_'' @ str_nat gate_id;
          h = sha256 (map of_char s)
      in from_bytes_big h)"

definition encrypt :: "int \<Rightarrow> int \<Rightarrow> nat \<Rightarrow> int \<Rightarrow> int" where
  "encrypt key1 key2 gate_id out_label =
     (let pad = hash_value key1 key2 gate_id in out_label XOR pad)"

definition decrypt :: "int \<Rightarrow> int \<Rightarrow> nat \<Rightarrow> int \<Rightarrow> int" where
  "decrypt key1 key2 gate_id ciphertext =
     (let pad = hash_value key1 key2 gate_id in ciphertext XOR pad)"

section \<open>Process-wide state: the gate counter, the random module, the output streams\<close>

text \<open>
  The random module is a tape of outcomes read in the order drawn: \<open>getrandbits k\<close>
  reduces the next outcome to \<open>k\<close> bits, \<open>randbelow n\<close> to the range below \<open>n\<close>. Every
  sequence of in-range results is the reading of some tape. The two messages that the
  program prints to stderr are kept as values, and so is each list printed to stdout.
\<close>

datatype message = Gate_evaluation_error nat string | Missing_input_label nat

record py_state =
  gate_id_counter :: nat
  rand_tape :: "nat \<Rightarrow> nat"
  rand_pos :: nat
  stderr :: "message list"
  stdout :: "int option list list"

datatype error = ValueError | KeyError | UnboundWire

definition get_next_gate_id :: "py_state \<Rightarrow> nat \<times> py_state" where
  "get_next_gate_id s =
     (let gate_id = gate_id_counter s
      in (gate_id, s\<lparr>gate_id_counter := gate_id_counter s + 1\<rparr>))"

definition getrandbits :: "nat \<Rightarrow> py_state \<Rightarrow> int \<times> py_state" where
  "getrandbits k s =
     (int (rand_tape s (rand_pos s) mod 2 ^ k), s\<lparr>rand_pos := rand_pos s + 1\<rparr>)"

definition randbelow :: "nat \<Rightarrow> py_state \<Rightarrow> nat \<times> py_state" where
  "randbelow n s = (rand_tape s (rand_pos s) mod n, s\<lparr>rand_pos := rand_pos s + 1\<rparr>)"

text \<open>
  \<open>random.shuffle\<close>: for \<open>i\<close> from the last index down to 1, draw \<open>j\<close> below \<open>i + 1\<close>
  and swap the entries at \<open>i\<close> and \<open>j\<close>.
\<close>

fun shuffle_from :: "nat \<Rightarrow> 'a list \<Rightarrow> py_state \<Rightarrow> 'a list \<times> py_state" where
  "shuffle_from 0 x s = (x, s)"
| "shuffle_from (Suc i) x s =
     (case randbelow (Suc i + 1) s of
        (j, s') \<Rightarrow> shuffle_from i (x[Suc i := x ! j, j := x ! Suc i]) s')"

definition shuffle :: "'a list \<Rightarrow> py_state \<Rightarrow> 'a list \<times> py_state" where
  "shuffle x s = shuffle_from (length x - 1) x s"

section \<open>Wire\<close>

text \<open>
  \<open>labels\<close> is the dictionary \<open>{0: l0, 1: l1}\<close> in insertion order; a missing key raises
  KeyError.
\<close>

record wire =
  name :: string
  labels :: "(int \<times> int) list"
  wvalue :: "int option"
  evaluated_label :: "int option"

definition dict_get :: "(int \<times> int) list \<Rightarrow> int \<Rightarrow> error + int" where
  "dict_get d k = (case map_of d k of None \<Rightarrow> Inl KeyError | Some v \<Rightarrow> Inr v)"

definition Wire_init :: "string \<Rightarrow> int option \<Rightarrow> py_state \<Rightarrow> wire \<times> py_state" where
  "Wire_init nm v s =
     (case getrandbits 64 s of (l0, s1) \<Rightarrow>
      case getrandbits 64 s1 of (l1, s2) \<Rightarrow>
        (\<lparr>name = nm, labels = [(0, l0), (1, l1)], wvalue = v, evaluated_label = None\<rparr>, s2))"

definition set_value :: "wire \<Rightarrow> int \<Rightarrow> error + wire" where
  "set_value w v =
     (case dict_get (labels w) v of
        Inl e \<Rightarrow> Inl e
      | Inr l \<Rightarrow> Inr (w\<lparr>wvalue := Some v, evaluated_label := Some l\<rparr>))"

fun get_bit_items :: "(int \<times> int) list \<Rightarrow> int option \<Rightarrow> int option" where
  "get_bit_items [] label = None"
| "get_bit_items ((b, lab) # r) label =
     (if Some lab = label then Some b else get_bit_items r label)"

definition get_bit_from_label :: "wire \<Rightarrow> int option \<Rightarrow> int option" where
  "get_bit_from_label w label = get_bit_items (labels w) label"

section \<open>Gate\<close>

text \<open>
  A gate refers to its three wires; the references are the wires' names, resolved in the
  circuit's \<open>wires\<close> dictionary. \<open>UnboundWire\<close> is the value of a reference that the
  dictionary lacks, which the Python objects cannot have.
\<close>

record gate =
  input_wire1 :: string
  input_wire2 :: string
  output_wire :: string
  func :: "int \<Rightarrow> int \<Rightarrow> int"
  gate_id :: nat
  gate_type :: string
  garbled_table :: "int list"

definition garble_entry ::
  "wire \<Rightarrow> wire \<Rightarrow> wire \<Rightarrow> (int \<Rightarrow> int \<Rightarrow> int) \<Rightarrow> nat \<Rightarrow> int \<times> int
     \<Rightarrow> error + ((int \<times> int) \<times> int)" where
  "garble_entry w1 w2 wo f gid ab =
     (case ab of (a, b) \<Rightarrow>
        (let out_bit = f a b in
         case dict_get (labels w1) a of Inl e \<Rightarrow> Inl e | Inr key_a \<Rightarrow>
         case dict_get (labels w2) b of Inl e \<Rightarrow> Inl e | Inr key_b \<Rightarrow>
         case dict_get (labels wo) out_bit of Inl e \<Rightarrow> Inl e | Inr out_label \<Rightarrow>
           Inr ((a, b), encrypt key_a key_b gid out_label)))"

fun garble_loop ::
  "wire \<Rightarrow> wire \<Rightarrow> wire \<Rightarrow> (int \<Rightarrow> int \<Rightarrow> int) \<Rightarrow> nat \<Rightarrow> (int \<times> int) list
     \<Rightarrow> ((int \<times> int) \<times> int) list \<Rightarrow> error + ((int \<times> int) \<times> int) list" where
  "garble_loop w1 w2 wo f gid [] table = Inr table"
| "garble_loop w1 w2 wo f gid (ab # r) table =
     (case garble_entry w1 w2 wo f gid ab of
        Inl e \<Rightarrow> Inl e
      | Inr entry \<Rightarrow> garble_loop w1 w2 wo f gid r (table @ [entry]))"

definition garble :: "wire \<Rightarrow> wire \<Rightarrow> wire \<Rightarrow> gate \<Rightarrow> py_state \<Rightarrow> (error + gate) \<times> py_state" where
  "garble w1 w2 wo g s =
     (case garble_loop w1 w2 wo (func g) (gate_id g) [(0, 0), (0, 1), (1, 0), (1, 1)] [] of
        Inl e \<Rightarrow> (Inl e, s)
      | Inr table \<Rightarrow>
          (case shuffle table s of
             (table', s') \<Rightarrow> (Inr (g\<lparr>garbled_table := map snd table'\<rparr>), s')))"

definition Gate_init ::
  "wire \<Rightarrow> wire \<Rightarrow> wire \<Rightarrow> (int \<Rightarrow> int \<Rightarrow> int) \<Rightarrow> string \<Rightarrow> py_state
     \<Rightarrow> (error + gate) \<times> py_state" where
  "Gate_init w1 w2 wo f gtype s =
     (case get_next_gate_id s of (gid, s1) \<Rightarrow>
        garble w1 w2 wo
          \<lparr>input_wire1 = name w1, input_wire2 = name w2, output_wire = name wo,
           func = f, gate_id = gid, gate_type = gtype, garbled_table = []\<rparr> s1)"

text \<open>
  The test of \<open>Gate.evaluate\<close>: \<open>decrypted == labels[0] or decrypted == labels[1]\<close>,
  the second lookup made only when the first comparison fails.
\<close>

definition valid_output_label :: "wire \<Rightarrow> int \<Rightarrow> error + bool" where
  "valid_output_label wo d =
     (case dict_get (labels wo) 0 of Inl e \<Rightarrow> Inl e | Inr l0 \<Rightarrow>
        if d = l0 then Inr True
        else (case dict_get (labels wo) 1 of Inl e \<Rightarrow> Inl e | Inr l1 \<Rightarrow> Inr (d = l1)))"

fun trial_decrypt :: "wire \<Rightarrow> nat \<Rightarrow> int \<Rightarrow> int \<Rightarrow> int list \<Rightarrow> error + int option" where
  "trial_decrypt wo gid label_a label_b [] = Inr None"
| "trial_decrypt wo gid label_a label_b (ciphertext # r) =
     (let decrypted = decrypt label_a label_b gid ciphertext in
      case valid_output_label wo decrypted of
        Inl e \<Rightarrow> Inl e
      | Inr True \<Rightarrow> Inr (Some decrypted)
      | Inr False \<Rightarrow> trial_decrypt wo gid label_a label_b r)"

definition Gate_evaluate ::
  "gate \<Rightarrow> int \<Rightarrow> int \<Rightarrow> (string \<rightharpoonup> wire) \<Rightarrow> py_state
     \<Rightarrow> (error + int option) \<times> (string \<rightharpoonup> wire) \<times> py_state" where
  "Gate_evaluate g label_a label_b ws s =
     (case ws (output_wire g) of
        None \<Rightarrow> (Inl UnboundWire, ws, s)
      | Some wo \<Rightarrow>
          (case trial_decrypt wo (gate_id g) label_a label_b (garbled_table g) of
             Inl e \<Rightarrow> (Inl e, ws, s)
           | Inr (Some decrypted) \<Rightarrow>
               (Inr (Some decrypted),
                ws(output_wire g \<mapsto> wo\<lparr>evaluated_label := Some decrypted\<rparr>), s)
           | Inr None \<Rightarrow>
               (Inr None, ws,
                s\<lparr>stderr := stderr s @ [Gate_evaluation_error (gate_id g) (gate_type g)]\<rparr>)))"

definition xor_gate :: "int \<Rightarrow> int \<Rightarrow> int" where
  "xor_gate a b = a XOR b"

definition and_gate :: "int \<Rightarrow> int \<Rightarrow> int" where
  "and_gate a b = a AND b"

definition or_gate :: "int \<Rightarrow> int \<Rightarrow> int" where
  "or_gate a b = a OR b"

section \<open>GarbledFullAdderCircuit\<close>

record circuit =
  a_bits :: "int option list"
  b_bits :: "int option list"
  wires :: "string \<rightharpoonup> wire"
  gates :: "gate list"
  full_sum_wires :: "string list"
  result_wires :: "string list"

text \<open>
  \<open>_new_wire\<close>: the wire is stored under its name, then \<open>set_value\<close> runs on the stored
  object when a value is given. A KeyError leaves the constructor, so the circuit under
  construction is lost and only the process-wide state remains.
\<close>

definition new_wire ::
  "string \<Rightarrow> int option \<Rightarrow> circuit \<Rightarrow> py_state \<Rightarrow> (error + circuit) \<times> py_state" where
  "new_wire nm v c s =
     (case Wire_init nm v s of (w, s1) \<Rightarrow>
        (case v of
           None \<Rightarrow> (Inr (c\<lparr>wires := (wires c)(nm \<mapsto> w)\<rparr>), s1)
         | Some x \<Rightarrow>
             (case set_value w x of
                Inl e \<Rightarrow> (Inl e, s1)
              | Inr w' \<Rightarrow> (Inr (c\<lparr>wires := (wires c)(nm \<mapsto> w')\<rparr>), s1))))"

text \<open>
  One gate stanza of \<open>_build_circuit\<close>: the output wire is created without a value, the
  gate is constructed on the two input wires and the new wire, and appended to \<open>gates\<close>.
\<close>

definition add_gate ::
  "string \<Rightarrow> string \<Rightarrow> string \<Rightarrow> (int \<Rightarrow> int \<Rightarrow> int) \<Rightarrow> string \<Rightarrow> circuit \<Rightarrow> py_state
     \<Rightarrow> (error + circuit) \<times> py_state" where
  "add_gate out in1 in2 f gtype c s =
     (case new_wire out None c s of
        (Inl e, s1) \<Rightarrow> (Inl e, s1)
      | (Inr c1, s1) \<Rightarrow>
          (case (wires c1 in1, wires c1 in2, wires c1 out) of
             (Some w1, Some w2, Some wo) \<Rightarrow>
               (case Gate_init w1 w2 wo f gtype s1 of
                  (Inl e, s2) \<Rightarrow> (Inl e, s2)
                | (Inr g, s2) \<Rightarrow> (Inr (c1\<lparr>gates := gates c1 @ [g]\<rparr>), s2))
           | _ \<Rightarrow> (Inl UnboundWire, s1)))"

datatype build_step =
  Input_wire string "int option"
| Gate_stanza string string string "int \<Rightarrow> int \<Rightarrow> int" string

fun exec_step :: "build_step \<Rightarrow> circuit \<Rightarrow> py_state \<Rightarrow> (error + circuit) \<times> py_state" where
  "exec_step (Input_wire nm v) c s = new_wire nm v c s"
| "exec_step (Gate_stanza out in1 in2 f gtype) c s = add_gate out in1 in2 f gtype c s"

fun run_steps :: "build_step list \<Rightarrow> circuit \<Rightarrow> py_state \<Rightarrow> (error + circuit) \<times> py_state" where
  "run_steps [] c s = (Inr c, s)"
| "run_steps (st # r) c s =
     (case exec_step st c s of
        (Inl e, s') \<Rightarrow> (Inl e, s')
      | (Inr c', s') \<Rightarrow> run_steps r c' s')"

text \<open>The statements of \<open>_build_circuit\<close>, in the order of the source.\<close>

definition adder_steps :: "int option list \<Rightarrow> int option list \<Rightarrow> build_step list" where
  "adder_steps a b =
    [Input_wire ''a0'' (a ! 0),
     Input_wire ''a1'' (a ! 1),
     Input_wire ''a2'' (a ! 2),
     Input_wire ''b0'' (b ! 0),
     Input_wire ''b1'' (b ! 1),
     Input_wire ''b2'' (b ! 2),
     Gate_stanza ''sum0'' ''a0'' ''b0'' xor_gate ''XOR'',
     Gate_stanza ''carry0'' ''a0'' ''b0'' and_gate ''AND'',
     Gate_stanza ''temp1'' ''a1'' ''b1'' xor_gate ''XOR'',
     Gate_stanza ''sum1'' ''temp1'' ''carry0'' xor_gate ''XOR'',
     Gate_stanza ''and1'' ''a1'' ''b1'' and_gate ''AND'',
     Gate_stanza ''and2'' ''temp1'' ''carry0'' and_gate ''AND'',
     Gate_stanza ''carry1'' ''and1'' ''and2'' or_gate ''OR'',
     Gate_stanza ''temp2'' ''a2'' ''b2'' xor_gate ''XOR'',
     Gate_stanza ''sum2'' ''temp2'' ''carry1'' xor_gate ''XOR'',
     Gate_stanza ''and3'' ''a2'' ''b2'' and_gate ''AND'',
     Gate_stanza ''and4'' ''temp2'' ''carry1'' and_gate ''AND'',
     Gate_stanza ''carry2'' ''and3'' ''and4'' or_gate ''OR'']"

definition build_circuit :: "circuit \<Rightarrow> py_state \<Rightarrow> (error + circuit) \<times> py_state" where
  "build_circuit c s =
     (case run_steps (adder_steps (a_bits c) (b_bits c)) c s of
        (Inl e, s') \<Rightarrow> (Inl e, s')
      | (Inr c', s') \<Rightarrow>
          (Inr (c'\<lparr>full_sum_wires := [''sum0'', ''sum1'', ''sum2'', ''carry2''],
                    result_wires := [''sum1'', ''sum2'', ''carry2'']\<rparr>), s'))"

definition GarbledFullAdderCircuit_init ::
  "int option list \<Rightarrow> int option list \<Rightarrow> py_state \<Rightarrow> (error + circuit) \<times> py_state" where
  "GarbledFullAdderCircuit_init a b s =
     (if length a \<noteq> 3 \<or> length b \<noteq> 3 then (Inl ValueError, s)
      else build_circuit
             \<lparr>a_bits = a, b_bits = b, wires = Map.empty, gates = [],
              full_sum_wires = [], result_wires = []\<rparr> s)"

text \<open>
  The gate loop of \<open>evaluate\<close>. The value is \<open>True\<close> when the loop ran to its end and
  \<open>False\<close> when it left through the bare \<open>return\<close>; what \<open>gate.evaluate\<close> returns is
  dropped.
\<close>

fun evaluate_gates ::
  "gate list \<Rightarrow> (string \<rightharpoonup> wire) \<Rightarrow> py_state \<Rightarrow> (error + bool) \<times> (string \<rightharpoonup> wire) \<times> py_state" where
  "evaluate_gates [] ws s = (Inr True, ws, s)"
| "evaluate_gates (g # gs) ws s =
     (case (ws (input_wire1 g), ws (input_wire2 g)) of
        (Some w1, Some w2) \<Rightarrow>
          (case (evaluated_label w1, evaluated_label w2) of
             (Some label_a, Some label_b) \<Rightarrow>
               (case Gate_evaluate g label_a label_b ws s of
                  (Inl e, ws', s') \<Rightarrow> (Inl e, ws', s')
                | (Inr r, ws', s') \<Rightarrow> evaluate_gates gs ws' s')
           | _ \<Rightarrow> (Inr False, ws, s\<lparr>stderr := stderr s @ [Missing_input_label (gate_id g)]\<rparr>))
      | _ \<Rightarrow> (Inl UnboundWire, ws, s))"

fun read_bits :: "(string \<rightharpoonup> wire) \<Rightarrow> string list \<Rightarrow> error + int option list" where
  "read_bits ws [] = Inr []"
| "read_bits ws (n # ns) =
     (case ws n of
        None \<Rightarrow> Inl UnboundWire
      | Some w \<Rightarrow>
          (case read_bits ws ns of
             Inl e \<Rightarrow> Inl e
           | Inr out \<Rightarrow> Inr (get_bit_from_label w (evaluated_label w) # out)))"

definition evaluate ::
  "circuit \<Rightarrow> py_state \<Rightarrow> (error + int option list option) \<times> circuit \<times> py_state" where
  "evaluate c s =
     (case evaluate_gates (gates c) (wires c) s of
        (Inl e, ws, s') \<Rightarrow> (Inl e, c\<lparr>wires := ws\<rparr>, s')
      | (Inr False, ws, s') \<Rightarrow> (Inr None, c\<lparr>wires := ws\<rparr>, s')
      | (Inr True, ws, s') \<Rightarrow>
          (case read_bits ws (result_wires c) of
             Inl e \<Rightarrow> (Inl e, c\<lparr>wires := ws\<rparr>, s')
           | Inr output \<Rightarrow>
               (Inr (Some output), c\<lparr>wires := ws\<rparr>, s'\<lparr>stdout := stdout s' @ [output]\<rparr>)))"

text \<open>The full sum as the driver and \<open>print_details\<close> read it off \<open>full_sum_wires\<close>.\<close>

definition full_sum :: "circuit \<Rightarrow> error + int option list" where
  "full_sum c = read_bits (wires c) (full_sum_wires c)"

text \<open>A tape that reads the listed outcomes first and 0 afterwards.\<close>

definition tape_of :: "nat list \<Rightarrow> nat \<Rightarrow> nat" where
  "tape_of xs p = (if p < length xs then xs ! p else 0)"

definition start_state :: "(nat \<Rightarrow> nat) \<Rightarrow> py_state" where
  "start_state t =
     \<lparr>gate_id_counter = 0, rand_tape = t, rand_pos = 0, stderr = [], stdout = []\<rparr>"

section \<open>Reading the model\<close>

text \<open>\<open>labels[v]\<close> where the key is present.\<close>

definition label_of :: "wire \<Rightarrow> int \<Rightarrow> int" where
  "label_of w v = (case map_of (labels w) v of Some l \<Rightarrow> l | None \<Rightarrow> 0)"

text \<open>The keys of a wire's label dictionary are 0 and 1, in this order.\<close>

definition two_labels :: "wire \<Rightarrow> bool" where
  "two_labels w = (map fst (labels w) = [0, 1])"

text \<open>The four ciphertexts of a gate in the order \<open>_garble\<close> computes them.\<close>

definition garbled_rows :: "wire \<Rightarrow> wire \<Rightarrow> wire \<Rightarrow> (int \<Rightarrow> int \<Rightarrow> int) \<Rightarrow> nat \<Rightarrow> int list" where
  "garbled_rows w1 w2 wo f gid =
     map (\<lambda>(a, b). encrypt (label_of w1 a) (label_of w2 b) gid (label_of wo (f a b)))
       [(0, 0), (0, 1), (1, 0), (1, 1)]"

definition bitfun :: "(int \<Rightarrow> int \<Rightarrow> int) \<Rightarrow> bool" where
  "bitfun f = list_all (\<lambda>(a, b). f a b = 0 \<or> f a b = 1) [(0, 0), (0, 1), (1, 0), (1, 1)]"

definition wire_ok :: "(nat \<Rightarrow> nat) \<Rightarrow> string \<Rightarrow> wire \<Rightarrow> bool" where
  "wire_ok T n w =
     (name w = n
      \<and> (\<exists>p. labels w = [(0, int (T p mod 2 ^ 64)), (1, int (T (Suc p) mod 2 ^ 64))])
      \<and> (wvalue w = None \<or> wvalue w = Some 0 \<or> wvalue w = Some 1)
      \<and> evaluated_label w = map_option (label_of w) (wvalue w))"

definition gate_ok :: "(nat \<Rightarrow> nat) \<Rightarrow> (string \<rightharpoonup> wire) \<Rightarrow> gate \<Rightarrow> bool" where
  "gate_ok T ws g =
     (\<exists>w1 w2 wo s. ws (input_wire1 g) = Some w1 \<and> ws (input_wire2 g) = Some w2
        \<and> ws (output_wire g) = Some wo \<and> rand_tape s = T \<and> bitfun (func g)
        \<and> garbled_table g
            = fst (shuffle (garbled_rows w1 w2 wo (func g) (gate_id g)) s))"

definition gate_sig :: "gate \<Rightarrow> string \<times> string \<times> string \<times> (int \<Rightarrow> int \<Rightarrow> int) \<times> string" where
  "gate_sig g = (output_wire g, input_wire1 g, input_wire2 g, func g, gate_type g)"


definition circuit_ok :: "(nat \<Rightarrow> nat) \<Rightarrow> circuit \<Rightarrow> bool" where
  "circuit_ok T c =
     ((\<forall>n w. wires c n = Some w \<longrightarrow> wire_ok T n w) \<and> list_all (gate_ok T (wires c)) (gates c))"

fun steps_ok :: "string list \<Rightarrow> build_step list \<Rightarrow> bool" where
  "steps_ok defined [] = True"
| "steps_ok defined (Input_wire n v # r) =
     (n \<notin> set defined \<and> (v = None \<or> v = Some 0 \<or> v = Some 1) \<and> steps_ok (n # defined) r)"
| "steps_ok defined (Gate_stanza out in1 in2 f gtype # r) =
     (in1 \<in> set defined \<and> in2 \<in> set defined \<and> out \<notin> set defined \<and> bitfun f
      \<and> steps_ok (out # defined) r)"

fun step_values :: "build_step list \<Rightarrow> (string \<times> int option) list" where
  "step_values [] = []"
| "step_values (Input_wire n v # r) = (n, v) # step_values r"
| "step_values (Gate_stanza out in1 in2 f gtype # r) = (out, None) # step_values r"

fun step_sigs :: "build_step list \<Rightarrow> (string \<times> string \<times> string \<times> (int \<Rightarrow> int \<Rightarrow> int) \<times> string) list" where
  "step_sigs [] = []"
| "step_sigs (Input_wire n v # r) = step_sigs r"
| "step_sigs (Gate_stanza out in1 in2 f gtype # r) = (out, in1, in2, f, gtype) # step_sigs r"

definition okv :: "int option \<Rightarrow> bool" where
  "okv v = (v = None \<or> v = Some 0 \<or> v = Some 1)"

definition adder_sigs :: "(string \<times> string \<times> string \<times> (int \<Rightarrow> int \<Rightarrow> int) \<times> string) list" where
  "adder_sigs =
    [(''sum0'', ''a0'', ''b0'', xor_gate, ''XOR''),
     (''carry0'', ''a0'', ''b0'', and_gate, ''AND''),
     (''temp1'', ''a1'', ''b1'', xor_gate, ''XOR''),
     (''sum1'', ''temp1'', ''carry0'', xor_gate, ''XOR''),
     (''and1'', ''a1'', ''b1'', and_gate, ''AND''),
     (''and2'', ''temp1'', ''carry0'', and_gate, ''AND''),
     (''carry1'', ''and1'', ''and2'', or_gate, ''OR''),
     (''temp2'', ''a2'', ''b2'', xor_gate, ''XOR''),
     (''sum2'', ''temp2'', ''carry1'', xor_gate, ''XOR''),
     (''and3'', ''a2'', ''b2'', and_gate, ''AND''),
     (''and4'', ''temp2'', ''carry1'', and_gate, ''AND''),
     (''carry2'', ''and3'', ''and4'', or_gate, ''OR'')]"

definition input_bits :: "circuit \<Rightarrow> string \<Rightarrow> int option" where
  "input_bits c n = (case wires c n of None \<Rightarrow> None | Some w \<Rightarrow> wvalue w)"




section \<open>The pad\<close>

lemma decrypt_encrypt_cancel [simp]: "decrypt ka kb g (encrypt ka kb g l) = l"
  by (simp add: decrypt_def encrypt_def xor.assoc)

text \<open>
  C8. Decrypting an encrypted label under the same two keys and gate id gives the label
  back; encryption and decryption are one operation, the exclusive or with the pad
  \<open>hash_value key_a key_b gate_id\<close>, which is a function of the two keys and the gate id
  alone.
\<close>

theorem decrypt_encrypt_roundtrip:
  "decrypt key_a key_b g (encrypt key_a key_b g l) = l
   \<and> encrypt key_a key_b g l = l XOR hash_value key_a key_b g
   \<and> decrypt key_a key_b g l = l XOR hash_value key_a key_b g
   \<and> decrypt key_a key_b g l = encrypt key_a key_b g l"
  by (simp add: decrypt_def encrypt_def xor.assoc)

section \<open>Input validation\<close>

text \<open>
  C7. When either input sequence is not exactly three long, the constructor raises
  ValueError (the condition InvalidInputLength) at once: no circuit is returned and the
  process-wide state, gate counter and random source included, is the one it was
  called in.
\<close>

theorem init_rejects_bad_length:
  "length a \<noteq> 3 \<or> length b \<noteq> 3 \<Longrightarrow> GarbledFullAdderCircuit_init a b s = (Inl ValueError, s)"
  by (simp add: GarbledFullAdderCircuit_init_def)

theorem init_rejects_bad_length_witness:
  "GarbledFullAdderCircuit_init [Some 1, Some 0] [Some 1, Some 0, Some 0]
     (start_state (\<lambda>p. p)) = (Inl ValueError, start_state (\<lambda>p. p))"
  using init_rejects_bad_length [of "[Some 1, Some 0]" "[Some 1, Some 0, Some 0]"
          "start_state (\<lambda>p. p)"]
  by simp

section \<open>Garbling\<close>

lemma two_labelsD: "two_labels w \<Longrightarrow> \<exists>l0 l1. labels w = [(0, l0), (1, l1)]"
  unfolding two_labels_def by (auto simp: map_eq_Cons_conv)

lemma two_labels_eq: "two_labels w \<Longrightarrow> labels w = [(0, label_of w 0), (1, label_of w 1)]"
  by (drule two_labelsD) (auto simp: label_of_def)

lemma dict_get_two:
  "two_labels w \<Longrightarrow> dict_get (labels w) v = (if v = 0 \<or> v = 1 then Inr (label_of w v) else Inl KeyError)"
  by (drule two_labelsD) (auto simp: dict_get_def label_of_def)

lemma randbelow_less: "0 < n \<Longrightarrow> fst (randbelow n s) < n"
  by (simp add: randbelow_def)

lemma shuffle_from_mset: "i < length x \<Longrightarrow> mset (fst (shuffle_from i x s)) = mset x"
proof (induction i arbitrary: x s)
  case 0
  then show ?case by simp
next
  case (Suc i)
  obtain j s' where r: "randbelow (Suc i + 1) s = (j, s')" by (cases "randbelow (Suc i + 1) s")
  have "j < Suc i + 1" using randbelow_less [of "Suc i + 1" s] r by simp
  with Suc.prems have j: "j < length x" by simp
  have "mset (x[Suc i := x ! j, j := x ! Suc i]) = mset x"
    using mset_swap [of j x "Suc i"] Suc.prems j by simp
  moreover have "i < length (x[Suc i := x ! j, j := x ! Suc i])" using Suc.prems by simp
  ultimately show ?case using Suc.IH [of "x[Suc i := x ! j, j := x ! Suc i]" s'] r by simp
qed

lemma shuffle_mset: "mset (fst (shuffle x s)) = mset x"
proof (cases x)
  case Nil
  then show ?thesis by (simp add: shuffle_def)
next
  case (Cons a r)
  then show ?thesis using shuffle_from_mset [of "length x - 1" x s] by (simp add: shuffle_def)
qed

lemma shuffle_from_state: "snd (shuffle_from i x s) = s\<lparr>rand_pos := rand_pos s + i\<rparr>"
  by (induction i arbitrary: x s) (auto simp: randbelow_def split: prod.splits)

lemma shuffle_state: "snd (shuffle x s) = s\<lparr>rand_pos := rand_pos s + (length x - 1)\<rparr>"
  by (simp add: shuffle_def shuffle_from_state)

lemma garble_loop_four:
  assumes "two_labels w1" "two_labels w2" "two_labels wo"
    and "\<forall>a\<in>{0,1}. \<forall>b\<in>{0,1}. f a b \<in> {0, 1}"
  shows "garble_loop w1 w2 wo f gid [(0, 0), (0, 1), (1, 0), (1, 1)] [] =
     Inr (map (\<lambda>(a, b). ((a, b), encrypt (label_of w1 a) (label_of w2 b) gid (label_of wo (f a b))))
            [(0, 0), (0, 1), (1, 0), (1, 1)])"
  using assms by (simp add: garble_entry_def dict_get_two Let_def)

lemma garble_loop_Inr:
  "garble_loop w1 w2 wo f gid cs acc = Inr table \<Longrightarrow>
   table = acc @ map (\<lambda>(a, b). ((a, b), encrypt (label_of w1 a) (label_of w2 b) gid (label_of wo (f a b)))) cs"
proof (induction cs arbitrary: acc)
  case Nil
  then show ?case by simp
next
  case (Cons ab r)
  obtain a b where ab: "ab = (a, b)" by (cases ab)
  from Cons.prems obtain e where e: "garble_entry w1 w2 wo f gid ab = Inr e"
    and rest: "garble_loop w1 w2 wo f gid r (acc @ [e]) = Inr table"
    by (auto split: sum.splits)
  from e have "e = ((a, b), encrypt (label_of w1 a) (label_of w2 b) gid (label_of wo (f a b)))"
    by (auto simp: garble_entry_def dict_get_def label_of_def Let_def ab
             split: sum.splits option.splits)
  with Cons.IH [OF rest] show ?case by (simp add: ab)
qed


lemma Gate_init_Inr:
  assumes "Gate_init w1 w2 wo f gtype s = (Inr g, s')"
  shows "input_wire1 g = name w1 \<and> input_wire2 g = name w2 \<and> output_wire g = name wo
         \<and> func g = f \<and> gate_type g = gtype \<and> gate_id g = gate_id_counter s
         \<and> mset (garbled_table g) = mset (garbled_rows w1 w2 wo f (gate_id_counter s))
         \<and> s' = s\<lparr>gate_id_counter := gate_id_counter s + 1, rand_pos := rand_pos s + 3\<rparr>"
proof -
  let ?g0 = "\<lparr>input_wire1 = name w1, input_wire2 = name w2, output_wire = name wo,
           func = f, gate_id = gate_id_counter s, gate_type = gtype, garbled_table = []\<rparr>"
  let ?s1 = "s\<lparr>gate_id_counter := gate_id_counter s + 1\<rparr>"
  from assms have g: "garble w1 w2 wo ?g0 ?s1 = (Inr g, s')"
    by (simp add: Gate_init_def get_next_gate_id_def)
  then obtain table where t: "garble_loop w1 w2 wo f (gate_id_counter s) [(0, 0), (0, 1), (1, 0), (1, 1)] [] = Inr table"
    by (auto simp: garble_def split: sum.splits)
  let ?rows = "map (\<lambda>(a, b). ((a, b), encrypt (label_of w1 a) (label_of w2 b) (gate_id_counter s) (label_of wo (f a b))))
       [(0, 0), (0, 1), (1, 0), (1, 1)]"
  from garble_loop_Inr [OF t] have tab: "table = ?rows" by simp
  from g t have res: "g = ?g0\<lparr>garbled_table := map snd (fst (shuffle table ?s1))\<rparr>"
    and st: "s' = snd (shuffle table ?s1)"
    by (auto simp: garble_def split: prod.splits)
  have "mset (map snd (fst (shuffle table ?s1))) = mset (map snd table)"
    using shuffle_mset [of table ?s1] by (metis mset_map)
  also have "map snd table = garbled_rows w1 w2 wo f (gate_id_counter s)"
    by (simp add: tab garbled_rows_def)
  finally have m: "mset (garbled_table g) = mset (garbled_rows w1 w2 wo f (gate_id_counter s))"
    by (simp add: res)
  have "length table = 4" by (simp add: tab)
  then have "s' = s\<lparr>gate_id_counter := gate_id_counter s + 1, rand_pos := rand_pos s + 3\<rparr>"
    by (simp add: st shuffle_state)
  with m res show ?thesis by simp
qed

lemma Gate_init_succeeds:
  assumes "two_labels w1" "two_labels w2" "two_labels wo"
    and "\<forall>a\<in>{0,1}. \<forall>b\<in>{0,1}. f a b \<in> {0, 1}"
  shows "\<exists>g s'. Gate_init w1 w2 wo f gtype s = (Inr g, s')"
  using garble_loop_four [OF assms]
  by (simp add: Gate_init_def get_next_gate_id_def garble_def split: prod.splits)

lemma Wire_init_eq:
  "Wire_init nm v s =
     (\<lparr>name = nm,
       labels = [(0, int (rand_tape s (rand_pos s) mod 2 ^ 64)),
                 (1, int (rand_tape s (rand_pos s + 1) mod 2 ^ 64))],
       wvalue = v, evaluated_label = None\<rparr>,
      s\<lparr>rand_pos := rand_pos s + 2\<rparr>)"
  by (simp add: Wire_init_def getrandbits_def)

lemma evaluate_gates_unchanged: "gates (fst (snd (evaluate c s))) = gates c"
  by (simp add: evaluate_def split: prod.splits sum.splits bool.splits)

text \<open>
  C6. A constructed gate holds exactly four ciphertexts: as a multiset, the encryptions
  of the output label for \<open>func a b\<close> under the labels of the first input wire for
  \<open>a\<close> and of the second for \<open>b\<close>, with the gate's id, for the four bit pairs; the
  order comes from the shuffle and no tag is kept. Evaluating a circuit returns its
  gates as they were, tables included.
\<close>

theorem garbled_table_contents:
  assumes "Gate_init w1 w2 wo f gtype s = (Inr g, s')"
  shows "length (garbled_table g) = 4
         \<and> mset (garbled_table g) =
             {#encrypt (label_of w1 0) (label_of w2 0) (gate_id g) (label_of wo (f 0 0)),
               encrypt (label_of w1 0) (label_of w2 1) (gate_id g) (label_of wo (f 0 1)),
               encrypt (label_of w1 1) (label_of w2 0) (gate_id g) (label_of wo (f 1 0)),
               encrypt (label_of w1 1) (label_of w2 1) (gate_id g) (label_of wo (f 1 1))#}
         \<and> gates (fst (snd (evaluate c s2))) = gates c"
proof -
  from Gate_init_Inr [OF assms]
  have m: "mset (garbled_table g) = mset (garbled_rows w1 w2 wo f (gate_id g))" by simp
  then have "size (mset (garbled_table g)) = 4" by (simp add: garbled_rows_def)
  then have "length (garbled_table g) = 4" by simp
  with m show ?thesis by (simp add: garbled_rows_def evaluate_gates_unchanged)
qed

theorem garbled_table_contents_witness:
  "\<exists>g s'. Gate_init
       \<lparr>name = ''a0'', labels = [(0, 11), (1, 12)], wvalue = Some 1, evaluated_label = Some 12\<rparr>
       \<lparr>name = ''b0'', labels = [(0, 21), (1, 22)], wvalue = Some 0, evaluated_label = Some 21\<rparr>
       \<lparr>name = ''sum0'', labels = [(0, 31), (1, 32)], wvalue = None, evaluated_label = None\<rparr>
       xor_gate ''XOR'' (start_state (\<lambda>p. p)) = (Inr g, s')
     \<and> length (garbled_table g) = 4
     \<and> mset (garbled_table g) =
          {#encrypt 11 21 0 31, encrypt 11 22 0 32, encrypt 12 21 0 32, encrypt 12 22 0 31#}"
proof -
  let ?w1 = "\<lparr>name = ''a0'', labels = [(0, 11), (1, 12)], wvalue = Some 1, evaluated_label = Some 12\<rparr>"
  let ?w2 = "\<lparr>name = ''b0'', labels = [(0, 21), (1, 22)], wvalue = Some 0, evaluated_label = Some 21\<rparr>"
  let ?wo = "\<lparr>name = ''sum0'', labels = [(0, 31), (1, 32)], wvalue = None, evaluated_label = None\<rparr>"
  have "\<exists>g s'. Gate_init ?w1 ?w2 ?wo xor_gate ''XOR'' (start_state (\<lambda>p. p)) = (Inr g, s')"
    by (rule Gate_init_succeeds) (simp_all add: two_labels_def xor_gate_def)
  then obtain g s' where
    g: "Gate_init ?w1 ?w2 ?wo xor_gate ''XOR'' (start_state (\<lambda>p. p)) = (Inr g, s')"
    by blast
  have id: "gate_id g = 0" using Gate_init_Inr [OF g] by (simp add: start_state_def)
  from garbled_table_contents [OF g] id
  have "length (garbled_table g) = 4
     \<and> mset (garbled_table g) =
          {#encrypt 11 21 0 31, encrypt 11 22 0 32, encrypt 12 21 0 32, encrypt 12 22 0 31#}"
    by (simp add: label_of_def xor_gate_def)
  with g show ?thesis by blast
qed

section \<open>The builder\<close>

lemma wire_ok_two_labels: "wire_ok T n w \<Longrightarrow> two_labels w"
  by (auto simp: wire_ok_def two_labels_def)

lemma shuffle_from_map:
  "i < length x \<Longrightarrow> fst (shuffle_from i (map h x) s) = map h (fst (shuffle_from i x s))"
proof (induction i arbitrary: x s)
  case 0
  then show ?case by simp
next
  case (Suc i)
  obtain j s' where r: "randbelow (Suc i + 1) s = (j, s')" by (cases "randbelow (Suc i + 1) s")
  have "j < Suc i + 1" using randbelow_less [of "Suc i + 1" s] r by simp
  with Suc.prems have j: "j < length x" by simp
  have eq: "(map h x)[Suc i := map h x ! j, j := map h x ! Suc i]
            = map h (x[Suc i := x ! j, j := x ! Suc i])"
    using Suc.prems j by (simp add: map_update)
  have "i < length (x[Suc i := x ! j, j := x ! Suc i])" using Suc.prems by simp
  from Suc.IH [OF this, of s'] show ?case using r eq by simp
qed

lemma shuffle_map: "fst (shuffle (map h x) s) = map h (fst (shuffle x s))"
proof (cases x)
  case Nil
  then show ?thesis by (simp add: shuffle_def)
next
  case (Cons a r)
  then show ?thesis using shuffle_from_map [of "length x - 1" x h s] by (simp add: shuffle_def)
qed

lemma garble_loop_bitfun:
  assumes "two_labels w1" "two_labels w2" "two_labels wo" "bitfun f"
  shows "garble_loop w1 w2 wo f gid [(0, 0), (0, 1), (1, 0), (1, 1)] [] =
     Inr (map (\<lambda>(a, b). ((a, b), encrypt (label_of w1 a) (label_of w2 b) gid (label_of wo (f a b))))
            [(0, 0), (0, 1), (1, 0), (1, 1)])"
  using assms by (auto simp: garble_entry_def dict_get_two Let_def bitfun_def)

lemma Gate_init_closed:
  assumes "two_labels w1" "two_labels w2" "two_labels wo" "bitfun f"
  shows "Gate_init w1 w2 wo f gtype s =
     (Inr \<lparr>input_wire1 = name w1, input_wire2 = name w2, output_wire = name wo,
           func = f, gate_id = gate_id_counter s, gate_type = gtype,
           garbled_table = fst (shuffle (garbled_rows w1 w2 wo f (gate_id_counter s))
                                  (s\<lparr>gate_id_counter := gate_id_counter s + 1\<rparr>))\<rparr>,
      s\<lparr>gate_id_counter := gate_id_counter s + 1, rand_pos := rand_pos s + 3\<rparr>)"
proof -
  let ?s1 = "s\<lparr>gate_id_counter := gate_id_counter s + 1\<rparr>"
  let ?rows = "map (\<lambda>(a, b). ((a, b), encrypt (label_of w1 a) (label_of w2 b) (gate_id_counter s) (label_of wo (f a b))))
            [(0, 0), (0, 1), (1, 0), (1, 1)]"
  have m: "map snd ?rows = garbled_rows w1 w2 wo f (gate_id_counter s)"
    by (simp add: garbled_rows_def)
  have t: "map snd (fst (shuffle ?rows ?s1)) = fst (shuffle (garbled_rows w1 w2 wo f (gate_id_counter s)) ?s1)"
    using shuffle_map [of snd ?rows ?s1] m by simp
  have st: "snd (shuffle ?rows ?s1) = s\<lparr>gate_id_counter := gate_id_counter s + 1, rand_pos := rand_pos s + 3\<rparr>"
    by (simp add: shuffle_state)
  have gl: "garble_loop w1 w2 wo f (gate_id_counter s) [(0, 0), (0, 1), (1, 0), (1, 1)] [] = Inr ?rows"
    by (rule garble_loop_bitfun [OF assms])
  show ?thesis
    using t st
    by (simp add: Gate_init_def get_next_gate_id_def garble_def gl case_prod_beta
             del: garble_loop.simps)
qed

lemma new_wire_ok:
  assumes "v = None \<or> v = Some 0 \<or> v = Some 1"
  shows "\<exists>w. new_wire nm v c s
            = (Inr (c\<lparr>wires := (wires c)(nm \<mapsto> w)\<rparr>), s\<lparr>rand_pos := rand_pos s + 2\<rparr>)
          \<and> wire_ok (rand_tape s) nm w \<and> wvalue w = v"
proof -
  let ?w0 = "fst (Wire_init nm v s)"
  let ?w = "?w0\<lparr>evaluated_label := map_option (label_of ?w0) v\<rparr>"
  have "new_wire nm v c s
          = (Inr (c\<lparr>wires := (wires c)(nm \<mapsto> ?w)\<rparr>), s\<lparr>rand_pos := rand_pos s + 2\<rparr>)"
    using assms
    by (auto simp: new_wire_def Wire_init_eq set_value_def dict_get_def label_of_def)
  moreover have "wire_ok (rand_tape s) nm ?w \<and> wvalue ?w = v"
    using assms by (auto simp: Wire_init_eq wire_ok_def label_of_def)
  ultimately show ?thesis by blast
qed

lemma new_wire_bad:
  assumes "v \<noteq> 0" "v \<noteq> 1"
  shows "new_wire nm (Some v) c s = (Inl KeyError, s\<lparr>rand_pos := rand_pos s + 2\<rparr>)"
  using assms by (simp add: new_wire_def Wire_init_eq set_value_def dict_get_def)

lemma add_gate_ok:
  assumes w1: "wires c in1 = Some w1" "wire_ok T in1 w1"
    and w2: "wires c in2 = Some w2" "wire_ok T in2 w2"
    and ne: "in1 \<noteq> out" "in2 \<noteq> out" and f: "bitfun f" and T: "rand_tape s = T"
  shows "\<exists>wo g. add_gate out in1 in2 f gtype c s
            = (Inr (c\<lparr>wires := (wires c)(out \<mapsto> wo), gates := gates c @ [g]\<rparr>),
               s\<lparr>gate_id_counter := gate_id_counter s + 1, rand_pos := rand_pos s + 5\<rparr>)
          \<and> wire_ok T out wo \<and> wvalue wo = None
          \<and> gate_sig g = (out, in1, in2, f, gtype) \<and> gate_id g = gate_id_counter s
          \<and> gate_ok T ((wires c)(out \<mapsto> wo)) g"
proof -
  from new_wire_ok [of None out c s] obtain wo where
    nw: "new_wire out None c s = (Inr (c\<lparr>wires := (wires c)(out \<mapsto> wo)\<rparr>), s\<lparr>rand_pos := rand_pos s + 2\<rparr>)"
    and wo: "wire_ok T out wo" "wvalue wo = None"
    using T by auto
  let ?s1 = "s\<lparr>rand_pos := rand_pos s + 2\<rparr>"
  let ?g = "\<lparr>input_wire1 = name w1, input_wire2 = name w2, output_wire = name wo,
           func = f, gate_id = gate_id_counter ?s1, gate_type = gtype,
           garbled_table = fst (shuffle (garbled_rows w1 w2 wo f (gate_id_counter ?s1))
                                  (?s1\<lparr>gate_id_counter := gate_id_counter ?s1 + 1\<rparr>))\<rparr>"
  have gi: "Gate_init w1 w2 wo f gtype ?s1 =
      (Inr ?g, ?s1\<lparr>gate_id_counter := gate_id_counter ?s1 + 1, rand_pos := rand_pos ?s1 + 3\<rparr>)"
    by (rule Gate_init_closed) (use w1 w2 wo f in \<open>auto dest: wire_ok_two_labels\<close>)
  have names: "name w1 = in1" "name w2 = in2" "name wo = out"
    using w1 w2 wo by (auto simp: wire_ok_def)
  have eq: "add_gate out in1 in2 f gtype c s
            = (Inr (c\<lparr>wires := (wires c)(out \<mapsto> wo), gates := gates c @ [?g]\<rparr>),
               s\<lparr>gate_id_counter := gate_id_counter s + 1, rand_pos := rand_pos s + 5\<rparr>)"
    using nw gi w1(1) w2(1) ne by (simp add: add_gate_def)
  have ok: "gate_ok T ((wires c)(out \<mapsto> wo)) ?g"
    unfolding gate_ok_def
    apply (rule exI [of _ w1], rule exI [of _ w2], rule exI [of _ wo])
    apply (rule exI [of _ "?s1\<lparr>gate_id_counter := gate_id_counter ?s1 + 1\<rparr>"])
    using w1(1) w2(1) ne names f T by simp
  show ?thesis
    apply (rule exI [of _ wo], rule exI [of _ ?g])
    using eq wo ok names by (simp add: gate_sig_def)
qed


lemma gate_ok_fresh:
  assumes "gate_ok T ws g" "ws n = None"
  shows "gate_ok T (ws(n \<mapsto> w)) g"
proof -
  from assms(1) obtain w1 w2 wo s where
    h: "ws (input_wire1 g) = Some w1" "ws (input_wire2 g) = Some w2"
       "ws (output_wire g) = Some wo" "rand_tape s = T" "bitfun (func g)"
       "garbled_table g = fst (shuffle (garbled_rows w1 w2 wo (func g) (gate_id g)) s)"
    unfolding gate_ok_def by blast
  from h assms(2) have "input_wire1 g \<noteq> n" "input_wire2 g \<noteq> n" "output_wire g \<noteq> n" by auto
  with h show ?thesis unfolding gate_ok_def by auto
qed

lemma run_steps_ok:
  assumes "steps_ok defined steps" "dom (wires c) = set defined" "circuit_ok T c" "rand_tape s = T"
  shows "\<exists>c' s'. run_steps steps c s = (Inr c', s') \<and> circuit_ok T c'
           \<and> dom (wires c') = set defined \<union> fst ` set (step_values steps)
           \<and> map gate_sig (gates c') = map gate_sig (gates c) @ step_sigs steps
           \<and> map gate_id (gates c')
               = map gate_id (gates c)
                 @ [gate_id_counter s ..< gate_id_counter s + length (step_sigs steps)]
           \<and> (\<forall>n\<in>set defined. wires c' n = wires c n)
           \<and> (\<forall>(n, v)\<in>set (step_values steps). \<exists>w. wires c' n = Some w \<and> wvalue w = v)
           \<and> rand_tape s' = T
           \<and> gate_id_counter s' = gate_id_counter s + length (step_sigs steps)
           \<and> stderr s' = stderr s \<and> stdout s' = stdout s
           \<and> a_bits c' = a_bits c \<and> b_bits c' = b_bits c"
  using assms
proof (induction steps arbitrary: defined c s)
  case Nil
  then show ?case by simp
next
  case (Cons st r)
  show ?case
  proof (cases st)
    case (Input_wire nm v)
    with Cons.prems have fresh: "nm \<notin> set defined" and v: "v = None \<or> v = Some 0 \<or> v = Some 1"
      and r: "steps_ok (nm # defined) r" by auto
    from new_wire_ok [OF v, of nm c s] Cons.prems(4) obtain w where
      nw: "new_wire nm v c s = (Inr (c\<lparr>wires := (wires c)(nm \<mapsto> w)\<rparr>), s\<lparr>rand_pos := rand_pos s + 2\<rparr>)"
      and w: "wire_ok T nm w" "wvalue w = v" by auto
    let ?c1 = "c\<lparr>wires := (wires c)(nm \<mapsto> w)\<rparr>"
    let ?s1 = "s\<lparr>rand_pos := rand_pos s + 2\<rparr>"
    have none: "wires c nm = None" using fresh Cons.prems(2) by auto
    have ok1: "circuit_ok T ?c1"
      using Cons.prems(3) w(1) none
      by (auto simp: circuit_ok_def list_all_iff intro: gate_ok_fresh)
    have dom1: "dom (wires ?c1) = set (nm # defined)" using Cons.prems(2) by auto
    from Cons.IH [OF r dom1 ok1, of ?s1] Cons.prems(4) obtain c' s' where
      ih: "run_steps r ?c1 ?s1 = (Inr c', s')" "circuit_ok T c'"
        "dom (wires c') = set (nm # defined) \<union> fst ` set (step_values r)"
        "map gate_sig (gates c') = map gate_sig (gates ?c1) @ step_sigs r"
        "map gate_id (gates c')
               = map gate_id (gates ?c1)
                 @ [gate_id_counter ?s1 ..< gate_id_counter ?s1 + length (step_sigs r)]"
        "\<forall>n\<in>set (nm # defined). wires c' n = wires ?c1 n"
        "\<forall>(n, v)\<in>set (step_values r). \<exists>w. wires c' n = Some w \<and> wvalue w = v"
        "rand_tape s' = T"
        "gate_id_counter s' = gate_id_counter ?s1 + length (step_sigs r)"
        "stderr s' = stderr ?s1" "stdout s' = stdout ?s1"
        "a_bits c' = a_bits ?c1" "b_bits c' = b_bits ?c1"
      by auto
    have run: "run_steps (st # r) c s = (Inr c', s')" using Input_wire nw ih(1) by simp
    have old: "\<forall>n\<in>set defined. wires c' n = wires c n" using ih(6) fresh by auto
    have new: "\<exists>w. wires c' nm = Some w \<and> wvalue w = v" using ih(6) w(2) by auto
    show ?thesis
      apply (rule exI [of _ c'], rule exI [of _ s'])
      using run ih(2-5) ih(7-13) old new Input_wire by auto
  next
    case (Gate_stanza out in1 in2 f gtype)
    with Cons.prems have i: "in1 \<in> set defined" "in2 \<in> set defined" and fresh: "out \<notin> set defined"
      and f: "bitfun f" and r: "steps_ok (out # defined) r" by auto
    from i Cons.prems(2) obtain w1 w2 where ws: "wires c in1 = Some w1" "wires c in2 = Some w2"
      by (metis domD)
    with Cons.prems(3) have wok: "wire_ok T in1 w1" "wire_ok T in2 w2"
      by (auto simp: circuit_ok_def)
    have ne: "in1 \<noteq> out" "in2 \<noteq> out" using i fresh by auto
    from add_gate_ok [OF ws(1) wok(1) ws(2) wok(2) ne f Cons.prems(4), of gtype] obtain wo g where
      ag: "add_gate out in1 in2 f gtype c s
            = (Inr (c\<lparr>wires := (wires c)(out \<mapsto> wo), gates := gates c @ [g]\<rparr>),
               s\<lparr>gate_id_counter := gate_id_counter s + 1, rand_pos := rand_pos s + 5\<rparr>)"
      and wo: "wire_ok T out wo" "wvalue wo = None"
      and g: "gate_sig g = (out, in1, in2, f, gtype)" "gate_id g = gate_id_counter s"
        "gate_ok T ((wires c)(out \<mapsto> wo)) g" by blast
    let ?c1 = "c\<lparr>wires := (wires c)(out \<mapsto> wo), gates := gates c @ [g]\<rparr>"
    let ?s1 = "s\<lparr>gate_id_counter := gate_id_counter s + 1, rand_pos := rand_pos s + 5\<rparr>"
    have none: "wires c out = None" using fresh Cons.prems(2) by auto
    have ok1: "circuit_ok T ?c1"
      using Cons.prems(3) wo(1) g(3) none
      by (auto simp: circuit_ok_def list_all_iff intro: gate_ok_fresh)
    have dom1: "dom (wires ?c1) = set (out # defined)" using Cons.prems(2) by auto
    from Cons.IH [OF r dom1 ok1, of ?s1] Cons.prems(4) obtain c' s' where
      ih: "run_steps r ?c1 ?s1 = (Inr c', s')" "circuit_ok T c'"
        "dom (wires c') = set (out # defined) \<union> fst ` set (step_values r)"
        "map gate_sig (gates c') = map gate_sig (gates ?c1) @ step_sigs r"
        "map gate_id (gates c')
               = map gate_id (gates ?c1)
                 @ [gate_id_counter ?s1 ..< gate_id_counter ?s1 + length (step_sigs r)]"
        "\<forall>n\<in>set (out # defined). wires c' n = wires ?c1 n"
        "\<forall>(n, v)\<in>set (step_values r). \<exists>w. wires c' n = Some w \<and> wvalue w = v"
        "rand_tape s' = T"
        "gate_id_counter s' = gate_id_counter ?s1 + length (step_sigs r)"
        "stderr s' = stderr ?s1" "stdout s' = stdout ?s1"
        "a_bits c' = a_bits ?c1" "b_bits c' = b_bits ?c1"
      by auto
    have run: "run_steps (st # r) c s = (Inr c', s')" using Gate_stanza ag ih(1) by simp
    have old: "\<forall>n\<in>set defined. wires c' n = wires c n" using ih(6) fresh by auto
    have new: "\<exists>w. wires c' out = Some w \<and> wvalue w = None" using ih(6) wo(2) by auto
    have ids: "map gate_id (gates c')
               = map gate_id (gates c)
                 @ [gate_id_counter s ..< gate_id_counter s + length (step_sigs (st # r))]"
    proof -
      have u: "[gate_id_counter s ..< gate_id_counter s + Suc (length (step_sigs r))]
               = gate_id_counter s
                 # [gate_id_counter s + 1 ..< gate_id_counter s + 1 + length (step_sigs r)]"
        by (simp add: upt_conv_Cons del: upt_Suc)
      show ?thesis using ih(5) g(2) Gate_stanza u by (simp del: upt_Suc)
    qed
    show ?thesis
      apply (rule exI [of _ c'], rule exI [of _ s'])
      using run ih(2-4) ih(7-13) old new ids g(1) Gate_stanza by auto
  qed
qed

section \<open>The adder circuit as built\<close>

lemma bitfun_gates [simp]: "bitfun xor_gate" "bitfun and_gate" "bitfun or_gate"
  by (simp_all add: bitfun_def xor_gate_def and_gate_def or_gate_def)

lemma adder_steps_sigs: "step_sigs (adder_steps a b) = adder_sigs"
  by (simp add: adder_steps_def adder_sigs_def)

lemma adder_steps_ok:
  assumes "okv x0" "okv x1" "okv x2" "okv y0" "okv y1" "okv y2"
  shows "steps_ok [] (adder_steps [x0, x1, x2] [y0, y1, y2])"
  using assms by (simp add: adder_steps_def okv_def)

lemma adder_values:
  "step_values (adder_steps [x0, x1, x2] [y0, y1, y2]) =
     [(''a0'', x0), (''a1'', x1), (''a2'', x2), (''b0'', y0), (''b1'', y1), (''b2'', y2),
      (''sum0'', None), (''carry0'', None), (''temp1'', None), (''sum1'', None),
      (''and1'', None), (''and2'', None), (''carry1'', None), (''temp2'', None),
      (''sum2'', None), (''and3'', None), (''and4'', None), (''carry2'', None)]"
  by (simp add: adder_steps_def)

lemma input_bits_from_values:
  assumes d: "dom (wires c) = fst ` set vs"
    and v: "\<forall>(n, v)\<in>set vs. \<exists>w. wires c n = Some w \<and> wvalue w = v"
    and dist: "distinct (map fst vs)"
  shows "input_bits c n = (case map_of vs n of None \<Rightarrow> None | Some v \<Rightarrow> v)"
proof (cases "map_of vs n")
  case None
  then have "n \<notin> fst ` set vs" by (simp add: map_of_eq_None_iff)
  with d have "wires c n = None" by auto
  with None show ?thesis by (simp add: input_bits_def)
next
  case (Some x)
  then have "(n, x) \<in> set vs" by (rule map_of_SomeD)
  with v obtain w where "wires c n = Some w" "wvalue w = x" by auto
  with Some show ?thesis by (simp add: input_bits_def)
qed

lemma adder_build:
  assumes "okv x0" "okv x1" "okv x2" "okv y0" "okv y1" "okv y2"
  shows "\<exists>c s'. GarbledFullAdderCircuit_init [x0, x1, x2] [y0, y1, y2] s = (Inr c, s')
           \<and> circuit_ok (rand_tape s) c
           \<and> map gate_sig (gates c) = adder_sigs
           \<and> map gate_id (gates c) = [gate_id_counter s ..< gate_id_counter s + 12]
           \<and> (\<forall>n. input_bits c n =
                 (if n = ''a0'' then x0 else if n = ''a1'' then x1 else if n = ''a2'' then x2
                  else if n = ''b0'' then y0 else if n = ''b1'' then y1
                  else if n = ''b2'' then y2 else None))
           \<and> full_sum_wires c = [''sum0'', ''sum1'', ''sum2'', ''carry2'']
           \<and> result_wires c = [''sum1'', ''sum2'', ''carry2'']
           \<and> rand_tape s' = rand_tape s \<and> gate_id_counter s' = gate_id_counter s + 12
           \<and> stderr s' = stderr s \<and> stdout s' = stdout s"
proof -
  let ?c0 = "\<lparr>a_bits = [x0, x1, x2], b_bits = [y0, y1, y2], wires = Map.empty, gates = [],
              full_sum_wires = [], result_wires = []\<rparr>"
  let ?steps = "adder_steps [x0, x1, x2] [y0, y1, y2]"
  have ok0: "circuit_ok (rand_tape s) ?c0" by (simp add: circuit_ok_def)
  have d0: "dom (wires ?c0) = set []" by simp
  from run_steps_ok [OF adder_steps_ok [OF assms] d0 ok0 refl]
  obtain c' s' where
    run: "run_steps ?steps ?c0 s = (Inr c', s')" and ok: "circuit_ok (rand_tape s) c'"
    and dom: "dom (wires c') = fst ` set (step_values ?steps)"
    and sigs: "map gate_sig (gates c') = step_sigs ?steps"
    and ids: "map gate_id (gates c')
               = [gate_id_counter s ..< gate_id_counter s + length (step_sigs ?steps)]"
    and vals: "\<forall>(n, v)\<in>set (step_values ?steps). \<exists>w. wires c' n = Some w \<and> wvalue w = v"
    and st: "rand_tape s' = rand_tape s"
       "gate_id_counter s' = gate_id_counter s + length (step_sigs ?steps)"
       "stderr s' = stderr s" "stdout s' = stdout s"
    by auto
  let ?c = "c'\<lparr>full_sum_wires := [''sum0'', ''sum1'', ''sum2'', ''carry2''],
                    result_wires := [''sum1'', ''sum2'', ''carry2'']\<rparr>"
  have init: "GarbledFullAdderCircuit_init [x0, x1, x2] [y0, y1, y2] s = (Inr ?c, s')"
    using run by (simp add: GarbledFullAdderCircuit_init_def build_circuit_def)
  have l12: "length (step_sigs ?steps) = 12" by (simp add: adder_steps_sigs adder_sigs_def)
  have ib: "input_bits ?c n =
                 (if n = ''a0'' then x0 else if n = ''a1'' then x1 else if n = ''a2'' then x2
                  else if n = ''b0'' then y0 else if n = ''b1'' then y1
                  else if n = ''b2'' then y2 else None)" for n
  proof -
    have "input_bits c' n = (case map_of (step_values ?steps) n of None \<Rightarrow> None | Some v \<Rightarrow> v)"
      by (rule input_bits_from_values [OF dom vals]) (simp add: adder_values)
    then show ?thesis by (simp add: input_bits_def adder_values)
  qed
  have "circuit_ok (rand_tape s) ?c" using ok by (simp add: circuit_ok_def)
  with init sigs ids ib st l12 show ?thesis
    by (intro exI [of _ ?c] exI [of _ s']) (simp add: adder_steps_sigs)
qed

lemma run_inputs_bad:
  assumes "\<exists>(n, v)\<in>set ivs. \<not> okv v"
  shows "\<exists>s'. run_steps (map (\<lambda>(n, v). Input_wire n v) ivs @ rest) c s = (Inl KeyError, s')
            \<and> gate_id_counter s' = gate_id_counter s"
  using assms
proof (induction ivs arbitrary: c s)
  case Nil
  then show ?case by simp
next
  case (Cons iv r)
  obtain n v where iv: "iv = (n, v)" by (cases iv)
  show ?case
  proof (cases "okv v")
    case True
    then have "v = None \<or> v = Some 0 \<or> v = Some 1" by (simp add: okv_def)
    from new_wire_ok [OF this, of n c s] obtain w where
      nw: "new_wire n v c s
            = (Inr (c\<lparr>wires := (wires c)(n \<mapsto> w)\<rparr>), s\<lparr>rand_pos := rand_pos s + 2\<rparr>)" by blast
    from True Cons.prems iv have "\<exists>(n, v)\<in>set r. \<not> okv v" by auto
    from Cons.IH [OF this, of "c\<lparr>wires := (wires c)(n \<mapsto> w)\<rparr>" "s\<lparr>rand_pos := rand_pos s + 2\<rparr>"]
    show ?thesis using nw iv by simp
  next
    case False
    then obtain x where "v = Some x" "x \<noteq> 0" "x \<noteq> 1" by (cases v) (auto simp: okv_def)
    then show ?thesis using new_wire_bad [of x n c s] iv by simp
  qed
qed

lemma adder_steps_split:
  "adder_steps [x0, x1, x2] [y0, y1, y2] =
     map (\<lambda>(n, v). Input_wire n v)
       [(''a0'', x0), (''a1'', x1), (''a2'', x2), (''b0'', y0), (''b1'', y1), (''b2'', y2)]
     @ drop 6 (adder_steps [x0, x1, x2] [y0, y1, y2])"
  by (simp add: adder_steps_def)

lemma init_bad_value:
  assumes "\<not> (okv x0 \<and> okv x1 \<and> okv x2 \<and> okv y0 \<and> okv y1 \<and> okv y2)"
  shows "\<exists>s'. GarbledFullAdderCircuit_init [x0, x1, x2] [y0, y1, y2] s = (Inl KeyError, s')
            \<and> gate_id_counter s' = gate_id_counter s"
proof -
  let ?ivs = "[(''a0'', x0), (''a1'', x1), (''a2'', x2), (''b0'', y0), (''b1'', y1), (''b2'', y2)]"
  let ?c0 = "\<lparr>a_bits = [x0, x1, x2], b_bits = [y0, y1, y2], wires = Map.empty, gates = [],
              full_sum_wires = [], result_wires = []\<rparr>"
  let ?rest = "drop 6 (adder_steps [x0, x1, x2] [y0, y1, y2])"
  have eq: "adder_steps [x0, x1, x2] [y0, y1, y2] = map (\<lambda>(n, v). Input_wire n v) ?ivs @ ?rest"
    by (rule adder_steps_split)
  from assms have "\<exists>(n, v)\<in>set ?ivs. \<not> okv v" by auto
  from run_inputs_bad [OF this, of ?rest ?c0 s]
  obtain s' where r: "run_steps (map (\<lambda>(n, v). Input_wire n v) ?ivs @ ?rest) ?c0 s = (Inl KeyError, s')"
    and g: "gate_id_counter s' = gate_id_counter s"
    by blast
  have "run_steps (adder_steps [x0, x1, x2] [y0, y1, y2]) ?c0 s = (Inl KeyError, s')"
    by (subst eq) (rule r)
  with g have "\<exists>s'. run_steps (adder_steps [x0, x1, x2] [y0, y1, y2]) ?c0 s = (Inl KeyError, s')
                 \<and> gate_id_counter s' = gate_id_counter s" by blast
  then show ?thesis by (auto simp: GarbledFullAdderCircuit_init_def build_circuit_def)
qed

lemma length3: "length xs = 3 \<Longrightarrow> \<exists>x0 x1 x2. xs = [x0, x1, x2]"
  by (cases xs; cases "tl xs"; cases "tl (tl xs)") auto

lemma init_Inr_okv:
  assumes "GarbledFullAdderCircuit_init a b s = (Inr c, s')"
  shows "\<exists>x0 x1 x2 y0 y1 y2. a = [x0, x1, x2] \<and> b = [y0, y1, y2]
           \<and> okv x0 \<and> okv x1 \<and> okv x2 \<and> okv y0 \<and> okv y1 \<and> okv y2"
proof -
  from assms have "length a = 3" "length b = 3"
    by (auto simp: GarbledFullAdderCircuit_init_def split: if_splits)
  then obtain x0 x1 x2 y0 y1 y2 where ab: "a = [x0, x1, x2]" "b = [y0, y1, y2]"
    using length3 by metis
  have "okv x0 \<and> okv x1 \<and> okv x2 \<and> okv y0 \<and> okv y1 \<and> okv y2"
  proof (rule ccontr)
    assume "\<not> ?thesis"
    from init_bad_value [OF this, of s] assms ab show False by auto
  qed
  with ab show ?thesis by blast
qed

lemma init_Inr_circuit_ok:
  assumes "GarbledFullAdderCircuit_init a b s = (Inr c, s')"
  shows "circuit_ok (rand_tape s) c"
proof -
  from init_Inr_okv [OF assms] obtain x0 x1 x2 y0 y1 y2 where
    ab: "a = [x0, x1, x2]" "b = [y0, y1, y2]"
    and ok: "okv x0" "okv x1" "okv x2" "okv y0" "okv y1" "okv y2" by blast
  from adder_build [OF ok, of s] assms ab show ?thesis by auto
qed

section \<open>Where the labels are drawn\<close>










section \<open>Label pairs\<close>




section \<open>Values that are not bits\<close>




section \<open>Gate evaluation\<close>

lemma valid_output_label_two:
  "two_labels wo \<Longrightarrow> valid_output_label wo d = Inr (d = label_of wo 0 \<or> d = label_of wo 1)"
  by (simp add: valid_output_label_def dict_get_two)

lemma trial_decrypt_find:
  "two_labels wo \<Longrightarrow>
   trial_decrypt wo gid la lb tbl
     = Inr (find (\<lambda>d. d = label_of wo 0 \<or> d = label_of wo 1) (map (decrypt la lb gid) tbl))"
  by (induction tbl) (auto simp: valid_output_label_two Let_def)

lemma Gate_evaluate_find:
  assumes "ws (output_wire g) = Some wo" "two_labels wo"
  shows "Gate_evaluate g la lb ws s =
     (case find (\<lambda>d. d = label_of wo 0 \<or> d = label_of wo 1)
             (map (decrypt la lb (gate_id g)) (garbled_table g)) of
        None \<Rightarrow> (Inr None, ws,
                 s\<lparr>stderr := stderr s @ [Gate_evaluation_error (gate_id g) (gate_type g)]\<rparr>)
      | Some d \<Rightarrow> (Inr (Some d), ws(output_wire g \<mapsto> wo\<lparr>evaluated_label := Some d\<rparr>), s))"
  using assms by (simp add: Gate_evaluate_def trial_decrypt_find split: option.splits)





lemma find_first:
  assumes "x \<in> set xs" "P (h x)" "\<forall>y\<in>set (takeWhile (\<lambda>y. y \<noteq> x) xs). \<not> P (h y)"
  shows "find P (map h xs) = Some (h x)"
  using assms
proof (induction xs)
  case Nil
  then show ?case by simp
next
  case (Cons a r)
  show ?case
  proof (cases "a = x")
    case True
    with Cons.prems show ?thesis by simp
  next
    case False
    with Cons.prems have "x \<in> set r" "\<not> P (h a)"
      "\<forall>y\<in>set (takeWhile (\<lambda>y. y \<noteq> x) r). \<not> P (h y)" by auto
    with Cons.IH Cons.prems(2) show ?thesis by simp
  qed
qed

lemma find_exists:
  assumes "x \<in> set xs" "P (h x)"
  shows "\<exists>d. find P (map h xs) = Some d \<and> P d"
  using assms
proof (induction xs)
  case Nil
  then show ?case by simp
next
  case (Cons a r)
  then show ?case by (cases "P (h a)") auto
qed

section \<open>Failures of evaluation\<close>





section \<open>Evaluating a gate on labels of its input wires\<close>

lemma Gate_init_table:
  assumes "Gate_init w1 w2 wo f gtype s = (Inr g, s')"
  shows "set (garbled_table g) = set (garbled_rows w1 w2 wo f (gate_id g))"
  using Gate_init_Inr [OF assms] by (metis mset_eq_setD)

lemma shuffle_from_keep:
  assumes "rand_tape s (rand_pos s) mod (Suc i + 1) = Suc i" "Suc i < length x"
  shows "shuffle_from (Suc i) x s = shuffle_from i x (s\<lparr>rand_pos := rand_pos s + 1\<rparr>)"
  using assms by (simp add: randbelow_def)

lemma shuffle4_keep2:
  assumes "rand_tape s (rand_pos s) mod 4 = 3" "rand_tape s (rand_pos s + 1) mod 3 = 2"
  shows "shuffle [r0, r1, r2, r3] s
           = shuffle_from (Suc 0) [r0, r1, r2, r3] (s\<lparr>rand_pos := rand_pos s + 2\<rparr>)"
proof -
  let ?x = "[r0, r1, r2, r3]"
  let ?s1 = "s\<lparr>rand_pos := rand_pos s + 1\<rparr>"
  have n4: "Suc (Suc (Suc 0)) + 1 = (4::nat)" and n3: "Suc (Suc 0) + 1 = (3::nat)" by simp_all
  have a: "shuffle_from (Suc (Suc (Suc 0))) ?x s = shuffle_from (Suc (Suc 0)) ?x ?s1"
    by (rule shuffle_from_keep) (simp_all add: n4 assms(1) del: shuffle_from.simps)
  have b: "shuffle_from (Suc (Suc 0)) ?x ?s1
           = shuffle_from (Suc 0) ?x (?s1\<lparr>rand_pos := rand_pos ?s1 + 1\<rparr>)"
    by (rule shuffle_from_keep) (use assms(2) in \<open>simp_all add: n3 del: shuffle_from.simps\<close>)
  have c: "shuffle ?x s = shuffle_from (Suc (Suc (Suc 0))) ?x s"
    by (simp add: shuffle_def del: shuffle_from.simps)
  have d: "?s1\<lparr>rand_pos := rand_pos ?s1 + 1\<rparr> = s\<lparr>rand_pos := rand_pos s + 2\<rparr>" by simp
  show ?thesis unfolding c a b d ..
qed

lemma shuffle4_identity:
  assumes "rand_tape s (rand_pos s) mod 4 = 3" "rand_tape s (rand_pos s + 1) mod 3 = 2"
    "rand_tape s (rand_pos s + 2) mod 2 = 1"
  shows "fst (shuffle [r0, r1, r2, r3] s) = [r0, r1, r2, r3]"
  unfolding shuffle4_keep2 [OF assms(1,2)] using assms(3)
  unfolding numeral_2_eq_2 by (simp add: randbelow_def)

lemma shuffle4_swap:
  assumes "rand_tape s (rand_pos s) mod 4 = 3" "rand_tape s (rand_pos s + 1) mod 3 = 2"
    "rand_tape s (rand_pos s + 2) mod 2 = 0"
  shows "fst (shuffle [r0, r1, r2, r3] s) = [r1, r0, r2, r3]"
  unfolding shuffle4_keep2 [OF assms(1,2)] using assms(3)
  unfolding numeral_2_eq_2 by (simp add: randbelow_def)

text \<open>
  C2, as the code has it. For a constructed gate and input bits \<open>a\<close> and \<open>b\<close>, evaluating
  on the label of the first input wire for \<open>a\<close> and of the second for \<open>b\<close> never fails:
  it returns the decryption of the first ciphertext, in stored order, that decrypts
  under these two labels to one of the two labels of the output wire, and records it as
  the output wire's evaluated label. That label is the output label for \<open>func a b\<close>
  when no ciphertext stored before the one garbled for \<open>(a, b)\<close> decrypts under these
  labels to a label of the output wire.
\<close>

theorem gate_evaluate_on_wire_labels:
  assumes "Gate_init w1 w2 wo f gtype s = (Inr g, s')"
    and "two_labels w1" and "two_labels w2" and "two_labels wo" and "bitfun f"
    and "a = 0 \<or> a = 1" and "b = 0 \<or> b = 1"
    and "ws (output_wire g) = Some wo"
  shows "\<exists>d. Gate_evaluate g (label_of w1 a) (label_of w2 b) ws s2
               = (Inr (Some d), ws(output_wire g \<mapsto> wo\<lparr>evaluated_label := Some d\<rparr>), s2)
           \<and> find (\<lambda>d. d = label_of wo 0 \<or> d = label_of wo 1)
                (map (decrypt (label_of w1 a) (label_of w2 b) (gate_id g)) (garbled_table g))
               = Some d
           \<and> (d = label_of wo 0 \<or> d = label_of wo 1)
           \<and> ((\<forall>ct\<in>set (takeWhile
                     (\<lambda>ct. ct \<noteq> encrypt (label_of w1 a) (label_of w2 b) (gate_id g)
                                      (label_of wo (f a b)))
                     (garbled_table g)).
                   decrypt (label_of w1 a) (label_of w2 b) (gate_id g) ct \<noteq> label_of wo 0
                   \<and> decrypt (label_of w1 a) (label_of w2 b) (gate_id g) ct \<noteq> label_of wo 1)
                \<longrightarrow> d = label_of wo (f a b))"
proof -
  let ?P = "\<lambda>d. d = label_of wo 0 \<or> d = label_of wo 1"
  let ?h = "decrypt (label_of w1 a) (label_of w2 b) (gate_id g)"
  let ?row = "encrypt (label_of w1 a) (label_of w2 b) (gate_id g) (label_of wo (f a b))"
  from assms(5,6,7) have fb: "f a b = 0 \<or> f a b = 1" by (auto simp: bitfun_def)
  have "?row \<in> set (garbled_rows w1 w2 wo f (gate_id g))"
    using assms(6,7) by (auto simp: garbled_rows_def)
  then have mem: "?row \<in> set (garbled_table g)" using Gate_init_table [OF assms(1)] by simp
  have P: "?P (?h ?row)" using fb by auto
  from find_exists [of ?row "garbled_table g" ?P ?h, OF mem P] obtain d where
    d: "find ?P (map ?h (garbled_table g)) = Some d" "?P d" by blast
  have ev: "Gate_evaluate g (label_of w1 a) (label_of w2 b) ws s2
               = (Inr (Some d), ws(output_wire g \<mapsto> wo\<lparr>evaluated_label := Some d\<rparr>), s2)"
    using Gate_evaluate_find [where ws = ws and g = g and wo = wo and la = "label_of w1 a"
            and lb = "label_of w2 b" and s = s2] assms(8,4) d(1)
    by simp
  have "d = label_of wo (f a b)"
    if "\<forall>ct\<in>set (takeWhile (\<lambda>ct. ct \<noteq> ?row) (garbled_table g)). \<not> ?P (?h ct)"
    using find_first [of ?row "garbled_table g" ?P ?h, OF mem P that] d(1) by simp
  with ev d show ?thesis by (intro exI [of _ d]) simp
qed


theorem gate_evaluate_on_wire_labels_witness:
  "\<exists>g s'. Gate_init
       \<lparr>name = ''a0'', labels = [(0, 11), (1, 12)], wvalue = Some 0, evaluated_label = Some 11\<rparr>
       \<lparr>name = ''b0'', labels = [(0, 21), (1, 22)], wvalue = Some 0, evaluated_label = Some 21\<rparr>
       \<lparr>name = ''sum0'', labels = [(0, 31), (1, 32)], wvalue = None, evaluated_label = None\<rparr>
       xor_gate ''XOR'' (start_state (\<lambda>p. 11)) = (Inr g, s')
     \<and> garbled_table g
         = [encrypt 11 21 0 31, encrypt 11 22 0 32, encrypt 12 21 0 32, encrypt 12 22 0 31]
     \<and> fst (Gate_evaluate g 11 21
              [''sum0'' \<mapsto> \<lparr>name = ''sum0'', labels = [(0, 31), (1, 32)], wvalue = None,
                               evaluated_label = None\<rparr>] s')
         = Inr (Some 31)"
proof -
  let ?w1 = "\<lparr>name = ''a0'', labels = [(0, 11), (1, 12)], wvalue = Some 0, evaluated_label = Some 11\<rparr>"
  let ?w2 = "\<lparr>name = ''b0'', labels = [(0, 21), (1, 22)], wvalue = Some 0, evaluated_label = Some 21\<rparr>"
  let ?wo = "\<lparr>name = ''sum0'', labels = [(0, 31), (1, 32)], wvalue = None, evaluated_label = None\<rparr>"
  let ?s = "start_state (\<lambda>p. 11)"
  let ?s1 = "?s\<lparr>gate_id_counter := gate_id_counter ?s + 1\<rparr>"
  let ?g = "\<lparr>input_wire1 = name ?w1, input_wire2 = name ?w2, output_wire = name ?wo,
           func = xor_gate, gate_id = gate_id_counter ?s, gate_type = ''XOR'',
           garbled_table = fst (shuffle (garbled_rows ?w1 ?w2 ?wo xor_gate (gate_id_counter ?s)) ?s1)\<rparr>"
  let ?s' = "?s\<lparr>gate_id_counter := gate_id_counter ?s + 1, rand_pos := rand_pos ?s + 3\<rparr>"
  have two: "two_labels ?w1" "two_labels ?w2" "two_labels ?wo" by (simp_all add: two_labels_def)
  have gi: "Gate_init ?w1 ?w2 ?wo xor_gate ''XOR'' ?s = (Inr ?g, ?s')"
    by (rule Gate_init_closed [OF two bitfun_gates(1)])
  have rows: "garbled_rows ?w1 ?w2 ?wo xor_gate (gate_id_counter ?s)
      = [encrypt 11 21 0 31, encrypt 11 22 0 32, encrypt 12 21 0 32, encrypt 12 22 0 31]"
    by (simp add: garbled_rows_def label_of_def xor_gate_def start_state_def)
  have tbl: "garbled_table ?g
      = [encrypt 11 21 0 31, encrypt 11 22 0 32, encrypt 12 21 0 32, encrypt 12 22 0 31]"
    unfolding rows by (simp add: shuffle4_identity start_state_def)
  have gid: "gate_id ?g = 0" by (simp add: start_state_def)
  have out: "[''sum0'' \<mapsto> ?wo] (output_wire ?g) = Some ?wo" by simp
  from gate_evaluate_on_wire_labels
    [OF gi two bitfun_gates(1), of 0 0 "[''sum0'' \<mapsto> ?wo]" ?s', OF _ _ out]
  obtain d where
    ev: "Gate_evaluate ?g (label_of ?w1 0) (label_of ?w2 0) [''sum0'' \<mapsto> ?wo] ?s'
           = (Inr (Some d), [''sum0'' \<mapsto> ?wo](output_wire ?g \<mapsto> ?wo\<lparr>evaluated_label := Some d\<rparr>), ?s')"
    and imp: "(\<forall>ct\<in>set (takeWhile
                     (\<lambda>ct. ct \<noteq> encrypt (label_of ?w1 0) (label_of ?w2 0) (gate_id ?g)
                                      (label_of ?wo (xor_gate 0 0)))
                     (garbled_table ?g)).
                   decrypt (label_of ?w1 0) (label_of ?w2 0) (gate_id ?g) ct \<noteq> label_of ?wo 0
                   \<and> decrypt (label_of ?w1 0) (label_of ?w2 0) (gate_id ?g) ct \<noteq> label_of ?wo 1)
                \<longrightarrow> d = label_of ?wo (xor_gate 0 0)"
    by auto
  have lab: "label_of ?w1 0 = 11" "label_of ?w2 0 = 21" "label_of ?wo (xor_gate 0 0) = 31"
    by (simp_all add: label_of_def xor_gate_def)
  from imp have "d = 31" unfolding tbl gid lab by simp
  with ev have "fst (Gate_evaluate ?g 11 21 [''sum0'' \<mapsto> ?wo] ?s') = Inr (Some 31)"
    unfolding lab by simp
  with gi tbl show ?thesis by blast
qed

text \<open>
  A gate whose first input wire drew the same label twice. The rows for \<open>(0, 1)\<close> and
  \<open>(1, 1)\<close> are then encrypted under the same two keys, and the shuffle stores the row
  for \<open>(0, 1)\<close> first: on the labels for \<open>(1, 1)\<close> the AND gate returns the output label
  for 0, which is 8, and not the one for 1, which is 9.
\<close>

theorem gate_returns_wrong_label:
  "(case Wire_init ''x'' None (start_state (tape_of [5, 5, 1, 2, 8, 9, 3, 2, 0])) of
      (w1, s1) \<Rightarrow>
    case Wire_init ''y'' None s1 of
      (w2, s2) \<Rightarrow>
    case Wire_init ''z'' None s2 of
      (wo, s3) \<Rightarrow>
    case Gate_init w1 w2 wo and_gate ''AND'' s3 of
      (Inr g, s4) \<Rightarrow>
        fst (Gate_evaluate g (label_of w1 1) (label_of w2 1) [''z'' \<mapsto> wo] s4) = Inr (Some 8)
        \<and> label_of wo (and_gate 1 1) = 9
    | (Inl e, s4) \<Rightarrow> False)"
proof -
  let ?T = "tape_of [5, 5, 1, 2, 8, 9, 3, 2, 0]"
  let ?w1 = "\<lparr>name = ''x'', labels = [(0, 5), (1, 5)], wvalue = None, evaluated_label = None\<rparr>"
  let ?w2 = "\<lparr>name = ''y'', labels = [(0, 1), (1, 2)], wvalue = None, evaluated_label = None\<rparr>"
  let ?wo = "\<lparr>name = ''z'', labels = [(0, 8), (1, 9)], wvalue = None, evaluated_label = None\<rparr>"
  let ?s0 = "start_state ?T"
  let ?s3 = "?s0\<lparr>rand_pos := 6\<rparr>"
  let ?s31 = "?s3\<lparr>gate_id_counter := gate_id_counter ?s3 + 1\<rparr>"
  let ?g = "\<lparr>input_wire1 = name ?w1, input_wire2 = name ?w2, output_wire = name ?wo,
           func = and_gate, gate_id = gate_id_counter ?s3, gate_type = ''AND'',
           garbled_table = fst (shuffle (garbled_rows ?w1 ?w2 ?wo and_gate (gate_id_counter ?s3)) ?s31)\<rparr>"
  let ?s4 = "?s3\<lparr>gate_id_counter := gate_id_counter ?s3 + 1, rand_pos := rand_pos ?s3 + 3\<rparr>"
  have wi1: "Wire_init ''x'' None ?s0 = (?w1, ?s0\<lparr>rand_pos := 2\<rparr>)"
    by (simp add: Wire_init_eq start_state_def tape_of_def)
  have wi2: "Wire_init ''y'' None (?s0\<lparr>rand_pos := 2\<rparr>) = (?w2, ?s0\<lparr>rand_pos := 4\<rparr>)"
    by (simp add: Wire_init_eq start_state_def tape_of_def)
  have wi3: "Wire_init ''z'' None (?s0\<lparr>rand_pos := 4\<rparr>) = (?wo, ?s3)"
    by (simp add: Wire_init_eq start_state_def tape_of_def)
  have two: "two_labels ?w1" "two_labels ?w2" "two_labels ?wo" by (simp_all add: two_labels_def)
  have gi: "Gate_init ?w1 ?w2 ?wo and_gate ''AND'' ?s3 = (Inr ?g, ?s4)"
    by (rule Gate_init_closed [OF two bitfun_gates(2)])
  have rows: "garbled_rows ?w1 ?w2 ?wo and_gate (gate_id_counter ?s3)
      = [encrypt 5 1 0 8, encrypt 5 2 0 8, encrypt 5 1 0 8, encrypt 5 2 0 9]"
    by (simp add: garbled_rows_def label_of_def and_gate_def start_state_def)
  let ?g2 = "\<lparr>input_wire1 = ''x'', input_wire2 = ''y'', output_wire = ''z'',
           func = and_gate, gate_id = 0, gate_type = ''AND'',
           garbled_table = [encrypt 5 2 0 8, encrypt 5 1 0 8, encrypt 5 1 0 8, encrypt 5 2 0 9]\<rparr>"
  have tbl: "fst (shuffle [encrypt 5 1 0 8, encrypt 5 2 0 8, encrypt 5 1 0 8, encrypt 5 2 0 9] ?s31)
      = [encrypt 5 2 0 8, encrypt 5 1 0 8, encrypt 5 1 0 8, encrypt 5 2 0 9]"
    by (rule shuffle4_swap) (simp_all add: start_state_def tape_of_def)
  have g2: "?g = ?g2" unfolding rows tbl by (simp add: start_state_def)
  have ev2: "Gate_evaluate ?g2 5 2 [''z'' \<mapsto> ?wo] ?s4
      = (case find (\<lambda>d. d = label_of ?wo 0 \<or> d = label_of ?wo 1)
             (map (decrypt 5 2 (gate_id ?g2)) (garbled_table ?g2)) of
        None \<Rightarrow> (Inr None, [''z'' \<mapsto> ?wo],
                 ?s4\<lparr>stderr := stderr ?s4 @ [Gate_evaluation_error (gate_id ?g2) (gate_type ?g2)]\<rparr>)
      | Some d \<Rightarrow> (Inr (Some d), [''z'' \<mapsto> ?wo](output_wire ?g2 \<mapsto> ?wo\<lparr>evaluated_label := Some d\<rparr>), ?s4))"
    by (rule Gate_evaluate_find) (simp_all add: two_labels_def)
  have ev: "fst (Gate_evaluate ?g 5 2 [''z'' \<mapsto> ?wo] ?s4) = Inr (Some 8)"
    unfolding g2 ev2 by (simp add: label_of_def)
  have lab: "label_of ?w1 1 = 5" "label_of ?w2 1 = 2" "label_of ?wo (and_gate 1 1) = 9"
    by (simp_all add: label_of_def and_gate_def)
  show ?thesis
    unfolding wi1 wi2 wi3 prod.case gi sum.case lab using ev by simp
qed

end
